theory Spec2Isabelle
  imports Main
begin

section \<open>Strings of the program\<close>

text \<open>
  A Python \<open>str\<close> is a sequence of code points. The model is over \<open>string\<close>, and a
  \<open>char\<close> stands for the code point with the same number, so the model covers the
  strings whose code points are below 256. The character classes below are those of
  \<open>str.isalnum\<close>, \<open>str.isdigit\<close>, \<open>str.isspace\<close> and \<open>str.lower\<close> on that range, and
  the classes \<open>[A-Za-z]\<close> and \<open>\d\<close> of the \<open>re\<close> module.
\<close>

definition code :: "char \<Rightarrow> nat" where
  "code c = of_char c"

definition isdigit :: "char \<Rightarrow> bool" where
  "isdigit c = (let n = code c in (48 \<le> n \<and> n \<le> 57) \<or> n = 178 \<or> n = 179 \<or> n = 185)"

definition isalnum :: "char \<Rightarrow> bool" where
  "isalnum c =
     (let n = code c in
        (48 \<le> n \<and> n \<le> 57) \<or> (65 \<le> n \<and> n \<le> 90) \<or> (97 \<le> n \<and> n \<le> 122)
        \<or> n = 170 \<or> n = 178 \<or> n = 179 \<or> n = 181 \<or> n = 185 \<or> n = 186
        \<or> (188 \<le> n \<and> n \<le> 190) \<or> (192 \<le> n \<and> n \<le> 214)
        \<or> (216 \<le> n \<and> n \<le> 246) \<or> (248 \<le> n \<and> n \<le> 255))"

definition isspace :: "char \<Rightarrow> bool" where
  "isspace c = (let n = code c in (9 \<le> n \<and> n \<le> 13) \<or> (28 \<le> n \<and> n \<le> 32) \<or> n = 133 \<or> n = 160)"

definition lower_char :: "char \<Rightarrow> char" where
  "lower_char c =
     (let n = code c in
        if (65 \<le> n \<and> n \<le> 90) \<or> (192 \<le> n \<and> n \<le> 214) \<or> (216 \<le> n \<and> n \<le> 222)
        then char_of (n + 32) else c)"

definition lower :: "string \<Rightarrow> string" where
  "lower s = map lower_char s"

text \<open>\<open>[A-Za-z]\<close> and \<open>\d\<close> of a \<open>str\<close> pattern.\<close>

definition re_letter :: "char \<Rightarrow> bool" where
  "re_letter c = (let n = code c in (65 \<le> n \<and> n \<le> 90) \<or> (97 \<le> n \<and> n \<le> 122))"

definition re_digit :: "char \<Rightarrow> bool" where
  "re_digit c = (let n = code c in 48 \<le> n \<and> n \<le> 57)"

text \<open>\<open>s.startswith(p)\<close>, \<open>s.ljust(n, c)\<close>, the slice \<open>s[a:b]\<close> for \<open>0 \<le> a\<close>, and \<open>s.strip()\<close>.\<close>

definition startswith :: "string \<Rightarrow> string \<Rightarrow> bool" where
  "startswith s p = (take (length p) s = p)"

definition ljust :: "nat \<Rightarrow> char \<Rightarrow> string \<Rightarrow> string" where
  "ljust n c s = s @ replicate (n - length s) c"

definition slice :: "nat \<Rightarrow> nat \<Rightarrow> string \<Rightarrow> string" where
  "slice a b s = take (b - a) (drop a s)"

definition strip :: "string \<Rightarrow> string" where
  "strip s = rev (dropWhile isspace (rev (dropWhile isspace s)))"

section \<open>The identifier normalizer\<close>

text \<open>Line 71: the alphanumeric characters of the identifier, in order.\<close>

definition clean :: "string \<Rightarrow> string" where
  "clean card_id = filter isalnum card_id"

text \<open>
  \<open>format_card_id\<close>, lines 70 to 91. Nothing in it can raise: a slice beyond the end
  of a string is the empty string, and \<open>ljust\<close> of a string that is long enough is the
  string itself.
\<close>

definition format_card_id :: "string \<Rightarrow> string" where
  "format_card_id card_id =
     (let cleaned = clean card_id in
      if startswith cleaned ''AL001'' \<or> startswith cleaned ''STE'' then
        let prefix = ''AL001'';
            category =
              (if startswith cleaned ''AL001''
               then (if length cleaned \<ge> 8 then slice 5 8 cleaned else ''XXX'')
               else take 3 cleaned);
            digits =
              (if startswith cleaned ''AL001''
               then filter isdigit (drop 8 cleaned)
               else filter isdigit (drop 3 cleaned));
            numbers = ljust 7 (CHR ''0'') (take 7 digits);
            suffix = ljust 4 (CHR ''0'') (slice 7 11 digits)
        in prefix @ ''/'' @ category @ ''-'' @ numbers @ ''/'' @ suffix
      else
        let chars = ljust 3 (CHR ''X'') (take 3 cleaned);
            digits = filter isdigit cleaned;
            numbers = ljust 11 (CHR ''0'') (take 11 digits)
        in chars @ ''-'' @ take 4 numbers @ '' '' @ slice 4 8 numbers @ '' '' @ slice 8 11 numbers)"

section \<open>File names\<close>

text \<open>
  \<open>sanitize_filename\<close>, lines 65 to 67. The character class of the pattern holds the
  code points 92 (backslash), 47 (slash), 42 (star), 63 (question mark), 58 (colon),
  34 (double quote), 60 and 62 (angle brackets), 124 (bar) and 10 (newline).
\<close>

definition path_hostile :: "char \<Rightarrow> bool" where
  "path_hostile c = (code c \<in> {92, 47, 42, 63, 58, 34, 60, 62, 124, 10})"

definition replace_spaces :: "string \<Rightarrow> string" where
  "replace_spaces name = map (\<lambda>c. if c = CHR '' '' then CHR ''_'' else c) name"

definition sanitize_filename :: "string \<Rightarrow> string" where
  "sanitize_filename name =
     (let name = replace_spaces name
      in take 100 (filter (\<lambda>c. \<not> path_hostile c) name))"

text \<open>\<open>os.path.join\<close> of two components and \<open>os.path.basename\<close>, as \<open>posixpath\<close> has them.\<close>

definition os_path_join :: "string \<Rightarrow> string \<Rightarrow> string" where
  "os_path_join a b =
     (if startswith b ''/'' then b
      else if a = [] \<or> last a = CHR ''/'' then a @ b
      else a @ ''/'' @ b)"

definition basename :: "string \<Rightarrow> string" where
  "basename p = rev (takeWhile (\<lambda>c. c \<noteq> CHR ''/'') (rev p))"

section \<open>The display text\<close>

text \<open>
  \<open>re.match(r'^([A-Za-z]{3})(\d+)$', Card)\<close>, line 197: the two groups when the pattern
  matches. \<open>$\<close> matches at the end of the string and before a newline that ends it.
\<close>

definition re_match_card :: "string \<Rightarrow> (string \<times> string) option" where
  "re_match_card s =
     (let g1 = take 3 s;
          g2 = takeWhile re_digit (drop 3 s);
          rest = dropWhile re_digit (drop 3 s)
      in if length g1 = 3 \<and> list_all re_letter g1 \<and> g2 \<noteq> []
            \<and> (rest = [] \<or> rest = [char_of (10::nat)])
         then Some (g1, g2) else None)"

text \<open>Lines 193 to 201: the text drawn at the policy number position, from \<open>Card\<close>.\<close>

definition display_text :: "string \<Rightarrow> string" where
  "display_text Card =
     (if startswith Card ''AL001'' then format_card_id Card
      else case re_match_card Card of
             Some (g1, g2) \<Rightarrow> g1 @ '' '' @ g2
           | None \<Rightarrow> Card)"

section \<open>Rows, environment and effects\<close>

text \<open>
  A cell of a row: the column is absent from the table, the cell is missing (NaN), or
  the cell has a value, given by its \<open>str()\<close>.
\<close>

datatype cell = Absent | NaN | Str string

record row =
  Name :: cell
  Card :: cell
  Date :: cell
  VIP :: cell
  Email :: cell

text \<open>\<open>str(row.get(key, default))\<close>.\<close>

fun cell_str :: "string \<Rightarrow> cell \<Rightarrow> string" where
  "cell_str d Absent = d"
| "cell_str d NaN = ''nan''"
| "cell_str d (Str s) = s"

text \<open>
  What the program reads from and asks of the outside world while it handles the row at
  position \<open>i\<close> of the table: whether a path exists, whether the template opens, whether
  the card saves, what \<open>pd.to_datetime(v).strftime(...)\<close> gives (\<open>None\<close> when it raises),
  whether the message is assembled (lines 95 to 129), whether a file to attach can be
  read, and whether the SMTP transaction of lines 156 to 160 goes through.
\<close>

record env =
  path_exists :: "nat \<Rightarrow> string \<Rightarrow> bool"
  image_open :: "nat \<Rightarrow> string \<Rightarrow> bool"
  image_save :: "nat \<Rightarrow> string \<Rightarrow> bool"
  to_datetime :: "string \<Rightarrow> string option"
  message_built :: "nat \<Rightarrow> string \<Rightarrow> bool"
  file_read :: "nat \<Rightarrow> string \<Rightarrow> bool"
  smtp_ok :: "nat \<Rightarrow> string \<Rightarrow> bool"

text \<open>The exceptions that leave a function, by the call that raises them.\<close>

datatype error = ImageOpenError | ImageSaveError | MessageError | FileReadError

text \<open>
  A saved card: its path, the template it was drawn on, and the three texts that depend
  on the row. The fixed label, the fonts, the positions and the colour are the same for
  every card and are left out; drawing on an opened image is taken not to raise.
\<close>

record artifact =
  filename :: string
  template :: string
  policy_no_text :: string
  date_text :: string
  name_text :: string

record message =
  msg_to :: string
  msg_subject :: string
  msg_body :: string
  attachments :: "string list"

datatype log_entry = EmailSent string | SmtpSendFailed string | SkippedEmailBody

text \<open>
  The effects of a batch: the cards saved, the messages handed to the mail server and
  the log, each in order. A function with effects returns the state it leaves and the
  exception it raised, if any.
\<close>

record state =
  files :: "artifact list"
  outbox :: "message list"
  log :: "log_entry list"

definition TEMPLATE_IMAGE :: string where
  "TEMPLATE_IMAGE = ''Card_Regular.jpg''"

section \<open>The notification sink\<close>

text \<open>
  \<open>send_email_with_attachment\<close>, lines 94 to 162. Lines 95 to 153 assemble the message
  and read the attachments, outside any \<open>try\<close>: an exception there leaves the function.
  Lines 155 to 162 are the SMTP transaction, inside the \<open>try\<close>: its failure is logged.
\<close>

definition assemble_message ::
    "env \<Rightarrow> nat \<Rightarrow> string \<Rightarrow> string \<Rightarrow> string \<Rightarrow> string option
       \<Rightarrow> error + (message \<times> log_entry list)" where
  "assemble_message e i to_email subject body_text attachment_path =
     (if \<not> message_built e i to_email then Inl MessageError
      else
        let content = (if body_text \<noteq> [] then body_text
                       else ''Please view this email in HTML format.'');
            redemption_path = os_path_join ''static'' ''Redemption.jpg'';
            with_redemption =
              (path_exists e i redemption_path
               \<and> lower (basename redemption_path) \<noteq> ''emailbody.jpg'')
        in if with_redemption \<and> \<not> file_read e i redemption_path then Inl FileReadError
           else
             let atts = (if with_redemption then [''Redemption.jpg''] else [])
             in case attachment_path of
                  None \<Rightarrow>
                    Inr (\<lparr>msg_to = to_email, msg_subject = subject,
                          msg_body = content, attachments = atts\<rparr>, [])
                | Some p \<Rightarrow>
                    if p \<noteq> [] \<and> path_exists e i p then
                      if lower (basename p) \<noteq> ''emailbody.jpg'' then
                        if \<not> file_read e i p then Inl FileReadError
                        else Inr (\<lparr>msg_to = to_email, msg_subject = subject,
                                   msg_body = content,
                                   attachments = atts @ [basename p]\<rparr>, [])
                      else Inr (\<lparr>msg_to = to_email, msg_subject = subject,
                                 msg_body = content, attachments = atts\<rparr>,
                                [SkippedEmailBody])
                    else Inr (\<lparr>msg_to = to_email, msg_subject = subject,
                               msg_body = content, attachments = atts\<rparr>, []))"

definition send_email_with_attachment ::
    "env \<Rightarrow> nat \<Rightarrow> string \<Rightarrow> string \<Rightarrow> string \<Rightarrow> string option \<Rightarrow> state
       \<Rightarrow> state \<times> error option" where
  "send_email_with_attachment e i to_email subject body_text attachment_path st =
     (case assemble_message e i to_email subject body_text attachment_path of
        Inl err \<Rightarrow> (st, Some err)
      | Inr (msg, warnings) \<Rightarrow>
          let st = st\<lparr>log := log st @ warnings\<rparr>
          in if smtp_ok e i to_email
             then (st\<lparr>outbox := outbox st @ [msg],
                      log := log st @ [EmailSent to_email]\<rparr>, None)
             else (st\<lparr>log := log st @ [SmtpSendFailed to_email]\<rparr>, None))"

section \<open>The batch pipeline\<close>

text \<open>The fields of a row as lines 172 to 183 read them.\<close>

definition name_of :: "row \<Rightarrow> string" where
  "name_of r = cell_str ''Unknown'' (Name r)"

definition card_of :: "row \<Rightarrow> string" where
  "card_of r = strip (cell_str ''Unknown'' (Card r))"

definition date_of :: "env \<Rightarrow> row \<Rightarrow> string" where
  "date_of e r =
     (case Date r of
        NaN \<Rightarrow> []
      | c \<Rightarrow> (let date_val = cell_str [] c
              in case to_datetime e date_val of Some d \<Rightarrow> d | None \<Rightarrow> date_val))"

definition vip_status_of :: "row \<Rightarrow> string" where
  "vip_status_of r = lower (strip (cell_str ''no'' (VIP r)))"

definition email_of :: "row \<Rightarrow> string option" where
  "email_of r = (case Email r of Str s \<Rightarrow> Some s | _ \<Rightarrow> None)"

text \<open>Lines 185 to 187: the template of the row.\<close>

definition template_of :: "env \<Rightarrow> nat \<Rightarrow> row \<Rightarrow> string" where
  "template_of e i r =
     (let template_img =
            os_path_join ''static''
              (if vip_status_of r = ''yes'' then ''Card_VIP.jpg'' else ''Card_Regular.jpg'')
      in if \<not> path_exists e i template_img then os_path_join ''static'' TEMPLATE_IMAGE
         else template_img)"

text \<open>Line 212: the file name of the card.\<close>

definition filename_of :: "string \<Rightarrow> row \<Rightarrow> string" where
  "filename_of output_folder r =
     os_path_join output_folder
       (sanitize_filename (name_of r) @ ''_'' @ sanitize_filename (card_of r) @ ''.png'')"

text \<open>Lines 189 to 213: the card drawn for a row, with the texts at their positions.\<close>

definition card_artifact :: "env \<Rightarrow> string \<Rightarrow> nat \<Rightarrow> row \<Rightarrow> artifact" where
  "card_artifact e output_folder i r =
     \<lparr>filename = filename_of output_folder r,
      template = template_of e i r,
      policy_no_text = display_text (card_of r),
      date_text = ''UNTIL - '' @ date_of e r,
      name_text = name_of r\<rparr>"

text \<open>The body of the loop of \<open>generate_cards_from_df\<close>, lines 172 to 217.\<close>

definition process_row :: "env \<Rightarrow> string \<Rightarrow> nat \<Rightarrow> row \<Rightarrow> state \<Rightarrow> state \<times> error option" where
  "process_row e output_folder i r st =
     (if \<not> image_open e i (template_of e i r) then (st, Some ImageOpenError)
      else
        let img = card_artifact e output_folder i r
        in if \<not> image_save e i (filename img) then (st, Some ImageSaveError)
           else
             let st = st\<lparr>files := files st @ [img]\<rparr>
             in case email_of r of
                  None \<Rightarrow> (st, None)
                | Some email \<Rightarrow>
                    if email \<noteq> []
                    then send_email_with_attachment e i email ''Your A-Member Card Awaits You''
                           [] (Some (filename img)) st
                    else (st, None))"

text \<open>The loop, lines 171 to 217: an exception of a row leaves the loop.\<close>

fun generate_cards_loop ::
    "env \<Rightarrow> string \<Rightarrow> nat \<Rightarrow> row list \<Rightarrow> state \<Rightarrow> state \<times> error option" where
  "generate_cards_loop e output_folder i [] st = (st, None)"
| "generate_cards_loop e output_folder i (r # rows) st =
     (case process_row e output_folder i r st of
        (st', Some err) \<Rightarrow> (st', Some err)
      | (st', None) \<Rightarrow> generate_cards_loop e output_folder (Suc i) rows st')"

definition generate_cards_from_df :: "env \<Rightarrow> row list \<Rightarrow> string \<Rightarrow> state \<times> error option" where
  "generate_cards_from_df e df output_folder =
     generate_cards_loop e output_folder 0 df \<lparr>files = [], outbox = [], log = []\<rparr>"

section \<open>The vocabulary of the properties\<close>




text \<open>
  A string that is exactly three letters followed by one or more digits and nothing
  else, with the letters \<open>A\<close> to \<open>Z\<close> and \<open>a\<close> to \<open>z\<close> and the digits \<open>0\<close> to \<open>9\<close>.
\<close>

definition letters3_digits :: "string \<Rightarrow> bool" where
  "letters3_digits s =
     (3 < length s \<and> list_all re_letter (take 3 s) \<and> list_all re_digit (drop 3 s))"

text \<open>\<open>s.endswith(p)\<close>, the test by which lines 224 and 313 pick the cards.\<close>

definition endswith :: "string \<Rightarrow> string \<Rightarrow> bool" where
  "endswith s p = (length p \<le> length s \<and> drop (length s - length p) s = p)"

text \<open>
  Rendering the row at position \<open>i\<close> fails when \<open>Image.open\<close> (line 189) or \<open>card.save\<close>
  (line 213) raises.
\<close>

definition render_fails :: "env \<Rightarrow> string \<Rightarrow> nat \<Rightarrow> row \<Rightarrow> bool" where
  "render_fails e output_folder i r =
     (\<not> (image_open e i (template_of e i r) \<and> image_save e i (filename_of output_folder r)))"

section \<open>Sample data\<close>

text \<open>The two rows of the sample sheet, lines 44 to 50.\<close>

definition john_doe :: row where
  "john_doe =
     \<lparr>Name = Str ''John Doe'', Card = Str ''STE 12345 690 7890'', Date = Str ''2024-12-31'',
      VIP = Str ''Yes'', Email = Str ''john@example.com''\<rparr>"

definition jane_smith :: row where
  "jane_smith =
     \<lparr>Name = Str ''Jane Smith'', Card = Str ''CII 98765 432 1098'', Date = Str ''2025-01-15'',
      VIP = Str ''No'', Email = Str ''jane@example.com''\<rparr>"

text \<open>
  An environment in which every operation succeeds, one in which the template of the
  second row cannot be opened, and one in which no SMTP transaction goes through.
\<close>

definition sample_env :: env where
  "sample_env =
     \<lparr>path_exists = (\<lambda>i p. True), image_open = (\<lambda>i p. True), image_save = (\<lambda>i p. True),
      to_datetime = (\<lambda>v. Some v), message_built = (\<lambda>i a. True), file_read = (\<lambda>i p. True),
      smtp_ok = (\<lambda>i a. True)\<rparr>"



section \<open>Facts about the string operations\<close>

lemmas char_class_defs =
  code_def isdigit_def isalnum_def isspace_def re_letter_def re_digit_def path_hostile_def

lemma replicate_numeral: "replicate (numeral k) x = x # replicate (pred_numeral k) x"
  by (simp add: numeral_eq_Suc)

lemma clean_idem: "clean (clean s) = clean s"
  by (simp add: clean_def)


lemma ljust_take: "ljust n c (take n s) = take n (s @ replicate n c)"
  by (simp add: ljust_def min_def)




lemma startswith_STE_not_AL001: "startswith s ''STE'' \<Longrightarrow> \<not> startswith s ''AL001''"
  by (cases s) (auto simp add: startswith_def)







lemma startswith_clean:
  assumes "startswith s p" "list_all isalnum p"
  shows "startswith (clean s) p"
proof -
  from assms(1) have "s = p @ drop (length p) s"
    by (metis append_take_drop_id startswith_def)
  then have "clean s = p @ clean (drop (length p) s)"
    using assms(2) by (metis clean_def filter_append filter_True list_all_iff)
  then show ?thesis by (simp add: startswith_def)
qed

lemma AL001_isalnum: "list_all isalnum ''AL001''"
  by (simp add: char_class_defs)

lemma strip_last: "strip s \<noteq> [] \<Longrightarrow> \<not> isspace (last (strip s))"
  by (metis strip_def hd_dropWhile last_rev rev_is_Nil_conv)


subsection \<open>The templates\<close>





subsection \<open>ASCII identifiers\<close>







section \<open>Facts about the display text\<close>

lemma re_match_card_stripped:
  assumes "c = [] \<or> \<not> isspace (last c)"
  shows "re_match_card c = (if letters3_digits c then Some (take 3 c, drop 3 c) else None)"
proof (cases "list_all re_digit (drop 3 c)")
  case True
  then have tw: "takeWhile re_digit (drop 3 c) = drop 3 c"
    and dw: "dropWhile re_digit (drop 3 c) = []"
    by (simp_all add: list_all_iff)
  show ?thesis
    using True by (auto simp add: re_match_card_def letters3_digits_def Let_def tw dw)
next
  case False
  then have ne: "dropWhile re_digit (drop 3 c) \<noteq> []"
    by (simp add: list_all_iff)
  have "dropWhile re_digit (drop 3 c) \<noteq> [char_of (10::nat)]"
  proof
    assume a: "dropWhile re_digit (drop 3 c) = [char_of (10::nat)]"
    have "c = take 3 c @ takeWhile re_digit (drop 3 c) @ dropWhile re_digit (drop 3 c)"
      by simp
    then have "c = (take 3 c @ takeWhile re_digit (drop 3 c)) @ [char_of (10::nat)]"
      using a by simp
    then have "c \<noteq> []" "last c = char_of (10::nat)"
      by (metis snoc_eq_iff_butlast)+
    moreover have "isspace (char_of (10::nat))"
      by (simp add: isspace_def code_def)
    ultimately show False using assms by simp
  qed
  with ne False show ?thesis
    by (simp add: re_match_card_def letters3_digits_def Let_def)
qed

lemma card_of_stripped: "card_of r = [] \<or> \<not> isspace (last (card_of r))"
  unfolding card_of_def using strip_last by blast

section \<open>Facts about file names\<close>

lemma path_hostile_underscore: "\<not> path_hostile (CHR ''_'')"
  by (simp add: path_hostile_def code_def)

lemma path_hostile_slash: "path_hostile (CHR ''/'')"
  by (simp add: path_hostile_def code_def)

lemma sanitize_charwise:
  "filter (\<lambda>c. \<not> path_hostile c) (replace_spaces s)
     = concat (map (\<lambda>c. if c = CHR '' '' then ''_'' else if path_hostile c then [] else [c]) s)"
  by (induction s) (simp_all add: replace_spaces_def path_hostile_underscore)

lemma sanitize_no_slash: "CHR ''/'' \<notin> set (sanitize_filename s)"
proof
  assume "CHR ''/'' \<in> set (sanitize_filename s)"
  then have "CHR ''/'' \<in> set (filter (\<lambda>c. \<not> path_hostile c) (replace_spaces s))"
    unfolding sanitize_filename_def Let_def by (rule in_set_takeD)
  then show False by (simp add: path_hostile_slash)
qed

lemma takeWhile_stop:
  assumes "\<forall>x\<in>set xs. P x" and "\<not> P y"
  shows "takeWhile P (xs @ y # ys) = xs"
  using assms by (induction xs) simp_all

lemma basename_join:
  assumes "CHR ''/'' \<notin> set b"
  shows "basename (os_path_join a b) = b"
proof -
  have nb: "\<not> startswith b ''/''"
  proof
    assume "startswith b ''/''"
    then have "b = CHR ''/'' # drop 1 b"
      by (cases b) (simp_all add: startswith_def)
    then have "CHR ''/'' \<in> set b" by (metis list.set_intros(1))
    with assms show False by simp
  qed
  have all: "\<forall>x\<in>set (rev b). x \<noteq> CHR ''/''"
    using assms by auto
  have whole: "basename b = b"
    unfolding basename_def using all by (simp add: takeWhile_eq_all_conv [THEN iffD2])
  have sep: "basename (p @ CHR ''/'' # b) = b" for p
    unfolding basename_def using takeWhile_stop [OF all, of "CHR ''/''" "rev p"] by simp
  show ?thesis
  proof (cases "a = []")
    case True
    with nb whole show ?thesis by (simp add: os_path_join_def)
  next
    case False
    show ?thesis
    proof (cases "last a = CHR ''/''")
      case True
      with False have "a = butlast a @ [CHR ''/'']"
        by (metis append_butlast_last_id)
      then have ab: "a @ b = butlast a @ CHR ''/'' # b"
        by (metis append_Cons append_Nil append_assoc)
      have "basename (a @ b) = b" by (simp only: ab sep)
      with nb True False show ?thesis by (simp add: os_path_join_def)
    next
      case l: False
      with nb False sep [of a] show ?thesis by (simp add: os_path_join_def)
    qed
  qed
qed

lemma card_file_no_slash:
  "CHR ''/'' \<notin> set (sanitize_filename x @ ''_'' @ sanitize_filename y @ ''.png'')"
  using sanitize_no_slash [of x] sanitize_no_slash [of y] by simp

lemma endswith_join: "endswith (os_path_join a (b @ p)) p"
  by (simp add: os_path_join_def endswith_def)

section \<open>Facts about the batch\<close>

lemma send_email_files:
  "files (fst (send_email_with_attachment e i a subj body att st)) = files st"
  by (simp add: send_email_with_attachment_def Let_def split: sum.splits prod.splits)

lemma send_email_raised:
  "snd (send_email_with_attachment e i a subj body att st) =
     (case assemble_message e i a subj body att of Inl err \<Rightarrow> Some err | Inr m \<Rightarrow> None)"
  by (simp add: send_email_with_attachment_def Let_def split: sum.splits prod.splits)

lemma filename_card_artifact: "filename (card_artifact e out i r) = filename_of out r"
  by (simp add: card_artifact_def)

lemma process_row_files:
  "files (fst (process_row e out i r st)) =
     files st @ (if render_fails e out i r then [] else [card_artifact e out i r])"
  by (simp add: process_row_def render_fails_def Let_def send_email_files filename_card_artifact
      split: option.splits)

lemma process_row_raised:
  "snd (process_row e out i r st) =
     (if \<not> image_open e i (template_of e i r) then Some ImageOpenError
      else if \<not> image_save e i (filename_of out r) then Some ImageSaveError
      else case email_of r of
             None \<Rightarrow> None
           | Some a \<Rightarrow>
               if a \<noteq> [] then
                 (case assemble_message e i a ''Your A-Member Card Awaits You'' []
                         (Some (filename_of out r)) of
                    Inl err \<Rightarrow> Some err | Inr m \<Rightarrow> None)
               else None)"
  by (simp add: process_row_def Let_def send_email_raised filename_card_artifact
      split: option.splits)

lemma process_row_render_fails:
  "render_fails e out i r \<Longrightarrow> snd (process_row e out i r st) \<noteq> None"
  by (auto simp add: process_row_raised render_fails_def)

text \<open>
  The cards saved by the loop are those of the first \<open>n\<close> rows, in order, for some \<open>n\<close>;
  each of these rows rendered, and \<open>n\<close> is the number of rows when the loop returns.
\<close>

lemma loop_result:
  "\<exists>n\<le>length rows.
     files (fst (generate_cards_loop e out i rows st))
       = files st @ map (\<lambda>j. card_artifact e out (i + j) (rows ! j)) [0..<n]
     \<and> (\<forall>j<n. \<not> render_fails e out (i + j) (rows ! j))
     \<and> (snd (generate_cards_loop e out i rows st) = None \<longrightarrow> n = length rows)"
proof (induction rows arbitrary: i st)
  case Nil
  then show ?case by simp
next
  case (Cons r rows)
  obtain st' x where p: "process_row e out i r st = (st', x)"
    by (cases "process_row e out i r st")
  have f: "files st' = files st @ (if render_fails e out i r then [] else [card_artifact e out i r])"
    using process_row_files [of e out i r st] p by simp
  show ?case
  proof (cases x)
    case (Some err)
    show ?thesis
    proof (cases "render_fails e out i r")
      case True
      with p Some f show ?thesis by (intro exI [of _ 0]) (simp del: upt_Suc)
    next
      case False
      with p Some f show ?thesis by (intro exI [of _ "Suc 0"]) simp
    qed
  next
    case None
    then have nf: "\<not> render_fails e out i r"
      using process_row_render_fails [of e out i r st] p by auto
    from Cons.IH [of "Suc i" st'] obtain n where nn: "n \<le> length rows \<and>
      files (fst (generate_cards_loop e out (Suc i) rows st'))
         = files st' @ map (\<lambda>j. card_artifact e out (Suc i + j) (rows ! j)) [0..<n] \<and>
      (\<forall>j<n. \<not> render_fails e out (Suc i + j) (rows ! j)) \<and>
      (snd (generate_cards_loop e out (Suc i) rows st') = None \<longrightarrow> n = length rows)" ..
    then have n: "n \<le> length rows"
      "files (fst (generate_cards_loop e out (Suc i) rows st'))
         = files st' @ map (\<lambda>j. card_artifact e out (Suc i + j) (rows ! j)) [0..<n]"
      "\<forall>j<n. \<not> render_fails e out (Suc i + j) (rows ! j)"
      "snd (generate_cards_loop e out (Suc i) rows st') = None \<longrightarrow> n = length rows"
      by simp_all
    have l: "generate_cards_loop e out i (r # rows) st = generate_cards_loop e out (Suc i) rows st'"
      using p None by simp
    have m: "map (\<lambda>j. card_artifact e out (i + j) ((r # rows) ! j)) [0..<Suc n]
         = card_artifact e out i r # map (\<lambda>j. card_artifact e out (Suc i + j) (rows ! j)) [0..<n]"
      by (subst map_upt_Suc) simp
    have a: "\<forall>j<Suc n. \<not> render_fails e out (i + j) ((r # rows) ! j)"
    proof (intro allI impI)
      fix j assume "j < Suc n"
      show "\<not> render_fails e out (i + j) ((r # rows) ! j)"
      proof (cases j)
        case 0
        with nf show ?thesis by simp
      next
        case (Suc j')
        with \<open>j < Suc n\<close> n(3) show ?thesis by simp
      qed
    qed
    have b: "files (fst (generate_cards_loop e out i (r # rows) st))
       = files st @ map (\<lambda>j. card_artifact e out (i + j) ((r # rows) ! j)) [0..<Suc n]"
      unfolding l n(2) m using f nf by simp
    have c: "snd (generate_cards_loop e out i (r # rows) st) = None \<longrightarrow> Suc n = length (r # rows)"
      unfolding l using n(4) by simp
    have d: "Suc n \<le> length (r # rows)"
      using n(1) by simp
    show ?thesis by (intro exI [of _ "Suc n"] conjI a b c d)
  qed
qed

lemma batch_result:
  "\<exists>n\<le>length df.
     files (fst (generate_cards_from_df e df out)) = map (\<lambda>j. card_artifact e out j (df ! j)) [0..<n]
     \<and> (\<forall>j<n. \<not> render_fails e out j (df ! j))
     \<and> (snd (generate_cards_from_df e df out) = None \<longrightarrow> n = length df)"
  using loop_result [of df e out 0 "\<lparr>files = [], outbox = [], log = []\<rparr>"]
  by (simp add: generate_cards_from_df_def)

subsection \<open>The outcome of the SMTP transactions\<close>

lemma assemble_message_smtp [simp]:
  "assemble_message (e\<lparr>smtp_ok := s\<rparr>) i a subj body att = assemble_message e i a subj body att"
  by (simp add: assemble_message_def Let_def split: option.splits)

lemma template_of_smtp [simp]: "template_of (e\<lparr>smtp_ok := s\<rparr>) i r = template_of e i r"
  by (simp add: template_of_def)

lemma card_artifact_smtp [simp]:
  "card_artifact (e\<lparr>smtp_ok := s\<rparr>) out i r = card_artifact e out i r"
  by (simp add: card_artifact_def date_of_def split: cell.splits)

lemma render_fails_smtp [simp]:
  "render_fails (e\<lparr>smtp_ok := s\<rparr>) out i r = render_fails e out i r"
  by (simp add: render_fails_def)



section \<open>The normalizer: shape of the result\<close>



section \<open>The normalizer: the carrier code family\<close>

text \<open>
  C4. When the cleaned identifier starts with \<open>STE\<close> (it then does not start with
  \<open>AL001\<close>), the result is the prefix \<open>AL001\<close>, a slash, the first three characters of
  the cleaned string (the carrier code itself), a dash, the first seven digits found after
  those three characters, padded with zeros to seven, a slash, and the next four digits,
  padded with zeros to four. \<open>STE12345690123\<close> gives \<open>AL001/STE-1234569/0123\<close>.
\<close>

theorem format_card_id_carrier:
  assumes "startswith (clean s) ''STE''"
  shows "\<not> startswith (clean s) ''AL001'' \<and> take 3 (clean s) = ''STE'' \<and> format_card_id s =
     ''AL001/'' @ take 3 (clean s) @ ''-''
       @ take 7 (filter isdigit (drop 3 (clean s)) @ replicate 7 (CHR ''0''))
       @ ''/'' @ take 4 (drop 7 (filter isdigit (drop 3 (clean s))) @ replicate 4 (CHR ''0''))
    \<and> format_card_id ''STE12345690123'' = ''AL001/STE-1234569/0123''"
proof -
  have n: "\<not> startswith (clean s) ''AL001''"
    using assms by (rule startswith_STE_not_AL001)
  have t: "take 3 (clean s) = ''STE''"
    using assms by (simp add: startswith_def numeral_3_eq_3)
  have f: "format_card_id s =
     ''AL001/'' @ take 3 (clean s) @ ''-''
       @ take 7 (filter isdigit (drop 3 (clean s)) @ replicate 7 (CHR ''0''))
       @ ''/'' @ take 4 (drop 7 (filter isdigit (drop 3 (clean s))) @ replicate 4 (CHR ''0''))"
    using assms n
    by (simp add: format_card_id_def Let_def slice_def ljust_take del: take_append)
  have x: "format_card_id ''STE12345690123'' = ''AL001/STE-1234569/0123''"
    by code_simp
  from n t f x show ?thesis by blast
qed

theorem format_card_id_carrier_witness:
  "startswith (clean ''STE 12345 690 7890'') ''STE'' \<and>
   format_card_id ''STE 12345 690 7890'' = ''AL001/STE-1234569/0789''"
proof -
  have h: "startswith (clean ''STE 12345 690 7890'') ''STE''" by code_simp
  have c: "clean ''STE 12345 690 7890'' = ''STE123456907890''" by code_simp
  from format_card_id_carrier [OF h] have "format_card_id ''STE 12345 690 7890'' =
     ''AL001/'' @ take 3 (clean ''STE 12345 690 7890'') @ ''-''
       @ take 7 (filter isdigit (drop 3 (clean ''STE 12345 690 7890'')) @ replicate 7 (CHR ''0''))
       @ ''/'' @ take 4 (drop 7 (filter isdigit (drop 3 (clean  ''STE 12345 690 7890''))) @ replicate 4 (CHR ''0''))"
    by blast
  then have "format_card_id ''STE 12345 690 7890'' = ''AL001/STE-1234569/0789''"
    unfolding c by (simp add: char_class_defs)
  with h show ?thesis by blast
qed

section \<open>The normalizer: the scheme prefix family\<close>

text \<open>
  C5. When the cleaned identifier starts with \<open>AL001\<close>, the category is
  \<open>cleaned[5:8]\<close> if the cleaned string has at least 8 characters and \<open>XXX\<close>
  otherwise, the digits are those of \<open>cleaned[8:]\<close>, the numbers field is the first 7 of
  them padded on the right with zeros to 7, the suffix is the digits 7 to 11 padded on the
  right with zeros to 4, and the result is \<open>AL001/category-numbers/suffix\<close>.
\<close>

theorem format_card_id_scheme_prefix:
  assumes "startswith (clean s) ''AL001''"
  shows "format_card_id s =
     ''AL001/'' @ (if 8 \<le> length (clean s) then take 3 (drop 5 (clean s)) else ''XXX'') @ ''-''
       @ take 7 (filter isdigit (drop 8 (clean s)) @ replicate 7 (CHR ''0''))
       @ ''/'' @ take 4 (drop 7 (filter isdigit (drop 8 (clean s))) @ replicate 4 (CHR ''0''))"
  using assms
  by (simp add: format_card_id_def Let_def slice_def ljust_take del: take_append)

theorem format_card_id_scheme_prefix_witness:
  "startswith (clean ''AL001-ABC 12'') ''AL001'' \<and>
   format_card_id ''AL001-ABC 12'' = ''AL001/ABC-1200000/0000''"
proof -
  have h: "startswith (clean ''AL001-ABC 12'') ''AL001''" by code_simp
  have c: "clean ''AL001-ABC 12'' = ''AL001ABC12''" by code_simp
  have "format_card_id ''AL001-ABC 12'' = ''AL001/ABC-1200000/0000''"
    using format_card_id_scheme_prefix [OF h] unfolding c
    by (simp add: char_class_defs replicate_numeral)
  with h show ?thesis by blast
qed

section \<open>The normalizer: the empty identifier\<close>

text \<open>
  C6. The empty identifier is in the default family: the result is three filler
  characters \<open>X\<close> and zeros in every digit group.
\<close>

theorem format_card_id_empty: "format_card_id '''' = ''XXX-0000 0000 000''"
  by code_simp

section \<open>The normalizer: only the alphanumeric characters count\<close>

text \<open>
  C10. The result for an identifier is the result for its cleaned form, so two
  identifiers with the same alphanumeric characters in the same order have the same
  result: spaces, dashes and other characters that are not alphanumeric may be put in or
  taken out anywhere.
\<close>

theorem format_card_id_clean:
  "format_card_id s = format_card_id (clean s) \<and>
   (clean s = clean t \<longrightarrow> format_card_id s = format_card_id t)"
  by (simp add: format_card_id_def clean_idem)

theorem format_card_id_clean_witness:
  "clean ''STE 12-34'' = clean ''S.T.E/1234'' \<and>
   format_card_id ''STE 12-34'' = format_card_id ''S.T.E/1234''"
proof -
  have h: "clean ''STE 12-34'' = clean ''S.T.E/1234''" by code_simp
  from format_card_id_clean [of "''STE 12-34''" "''S.T.E/1234''"] h show ?thesis by blast
qed

section \<open>The display text: the long form\<close>




section \<open>The display text: the short form and the identifier as it is\<close>

text \<open>
  C7. For every row whose identifier does not trigger the long form (its cleaned form
  starts neither with \<open>AL001\<close> nor with \<open>STE\<close>): if the identifier, not cleaned, is
  exactly three letters followed by one or more digits and nothing else, the text on the
  card is the letters, one space and the digits, none padded or cut; otherwise the text
  is the identifier unchanged. The identifier is the value of \<open>Card\<close> at line 173.
\<close>

theorem short_form_display_text:
  assumes "\<not> (startswith (clean (card_of r)) ''AL001'' \<or> startswith (clean (card_of r)) ''STE'')"
  shows "policy_no_text (card_artifact e out i r) =
     (if letters3_digits (card_of r) then take 3 (card_of r) @ '' '' @ drop 3 (card_of r)
      else card_of r)"
proof -
  from assms have "\<not> startswith (card_of r) ''AL001''"
    using startswith_clean [OF _ AL001_isalnum] by blast
  then show ?thesis
    by (simp add: card_artifact_def display_text_def re_match_card_stripped [OF card_of_stripped])
qed

theorem short_form_display_text_witness:
  "\<not> (startswith (clean (card_of (john_doe\<lparr>Card := Str ''ABC123''\<rparr>))) ''AL001''
      \<or> startswith (clean (card_of (john_doe\<lparr>Card := Str ''ABC123''\<rparr>))) ''STE'')
   \<and> policy_no_text (card_artifact sample_env ''web_cards'' 0 (john_doe\<lparr>Card := Str ''ABC123''\<rparr>))
       = ''ABC 123''
   \<and> \<not> (startswith (clean (card_of jane_smith)) ''AL001''
      \<or> startswith (clean (card_of jane_smith)) ''STE'')
   \<and> policy_no_text (card_artifact sample_env ''web_cards'' 1 jane_smith) = ''CII 98765 432 1098''"
proof -
  have h: "\<not> (startswith (clean (card_of (john_doe\<lparr>Card := Str ''ABC123''\<rparr>))) ''AL001''
      \<or> startswith (clean (card_of (john_doe\<lparr>Card := Str ''ABC123''\<rparr>))) ''STE'')"
    by code_simp
  have l: "letters3_digits (card_of (john_doe\<lparr>Card := Str ''ABC123''\<rparr>))" by code_simp
  have c: "card_of (john_doe\<lparr>Card := Str ''ABC123''\<rparr>) = ''ABC123''" by code_simp
  have h': "\<not> (startswith (clean (card_of jane_smith)) ''AL001''
      \<or> startswith (clean (card_of jane_smith)) ''STE'')"
    by code_simp
  have l': "\<not> letters3_digits (card_of jane_smith)" by code_simp
  have c': "card_of jane_smith = ''CII 98765 432 1098''" by code_simp
  from short_form_display_text [OF h, of sample_env "''web_cards''" 0] l c
  have a: "policy_no_text (card_artifact sample_env ''web_cards'' 0 (john_doe\<lparr>Card := Str ''ABC123''\<rparr>))
       = ''ABC 123''"
    by simp
  from short_form_display_text [OF h', of sample_env "''web_cards''" 1] l' c'
  have b: "policy_no_text (card_artifact sample_env ''web_cards'' 1 jane_smith) = ''CII 98765 432 1098''"
    by simp
  from h a h' b show ?thesis by (intro conjI)
qed

section \<open>The file name of a card\<close>

text \<open>
  C9. Every card saved by a batch is the card of the row at its position, and its file
  name is \<open>sanitize(Name)_sanitize(Card).png\<close> in the output folder: the last component
  of its path is exactly that name, so it ends in \<open>.png\<close>. \<open>sanitize_filename\<close> goes
  through its argument character by character, writes an underscore for a space, drops
  a backslash, slash, star, question mark, colon, double quote, angle bracket, bar or
  newline, keeps any other character as it is (no change of case), and keeps the first
  100 characters of what it wrote.
\<close>

theorem artifact_filename:
  "(\<forall>j<length (files (fst (generate_cards_from_df e df out))).
       j < length df
     \<and> filename (files (fst (generate_cards_from_df e df out)) ! j)
         = os_path_join out
             (sanitize_filename (name_of (df ! j)) @ ''_'' @ sanitize_filename (card_of (df ! j)) @ ''.png'')
     \<and> basename (filename (files (fst (generate_cards_from_df e df out)) ! j))
         = sanitize_filename (name_of (df ! j)) @ ''_'' @ sanitize_filename (card_of (df ! j)) @ ''.png''
     \<and> endswith (filename (files (fst (generate_cards_from_df e df out)) ! j)) ''.png'')
   \<and> sanitize_filename s
       = take 100 (concat (map (\<lambda>c. if c = CHR '' '' then ''_''
                                     else if path_hostile c then [] else [c]) s))
   \<and> length (sanitize_filename s) \<le> 100"
proof -
  from batch_result [of df e out] obtain n where nn: "n \<le> length df \<and>
    files (fst (generate_cards_from_df e df out)) = map (\<lambda>j. card_artifact e out j (df ! j)) [0..<n] \<and>
    (\<forall>j<n. \<not> render_fails e out j (df ! j)) \<and>
    (snd (generate_cards_from_df e df out) = None \<longrightarrow> n = length df)" ..
  then have n1: "n \<le> length df"
    and n2: "files (fst (generate_cards_from_df e df out)) = map (\<lambda>j. card_artifact e out j (df ! j)) [0..<n]"
    by simp_all
  have f: "filename (card_artifact e out j r)
      = os_path_join out (sanitize_filename (name_of r) @ ''_'' @ sanitize_filename (card_of r) @ ''.png'')"
    for j r
    by (simp add: card_artifact_def filename_of_def)
  have b: "basename (filename (card_artifact e out j r))
      = sanitize_filename (name_of r) @ ''_'' @ sanitize_filename (card_of r) @ ''.png''" for j r
    unfolding f by (rule basename_join) (rule card_file_no_slash)
  have p: "endswith (filename (card_artifact e out j r)) ''.png''" for j r
    unfolding f
    using endswith_join [of out "sanitize_filename (name_of r) @ ''_'' @ sanitize_filename (card_of r)" "''.png''"]
    by simp
  have a: "\<forall>j<length (files (fst (generate_cards_from_df e df out))).
       j < length df
     \<and> filename (files (fst (generate_cards_from_df e df out)) ! j)
         = os_path_join out
             (sanitize_filename (name_of (df ! j)) @ ''_'' @ sanitize_filename (card_of (df ! j)) @ ''.png'')
     \<and> basename (filename (files (fst (generate_cards_from_df e df out)) ! j))
         = sanitize_filename (name_of (df ! j)) @ ''_'' @ sanitize_filename (card_of (df ! j)) @ ''.png''
     \<and> endswith (filename (files (fst (generate_cards_from_df e df out)) ! j)) ''.png''"
  proof (intro allI impI)
    fix j
    assume "j < length (files (fst (generate_cards_from_df e df out)))"
    then have jn: "j < n" unfolding n2 by simp
    then have el: "files (fst (generate_cards_from_df e df out)) ! j = card_artifact e out j (df ! j)"
      unfolding n2 by simp
    from jn n1 have jl: "j < length df" by simp
    show "j < length df
     \<and> filename (files (fst (generate_cards_from_df e df out)) ! j)
         = os_path_join out
             (sanitize_filename (name_of (df ! j)) @ ''_'' @ sanitize_filename (card_of (df ! j)) @ ''.png'')
     \<and> basename (filename (files (fst (generate_cards_from_df e df out)) ! j))
         = sanitize_filename (name_of (df ! j)) @ ''_'' @ sanitize_filename (card_of (df ! j)) @ ''.png''
     \<and> endswith (filename (files (fst (generate_cards_from_df e df out)) ! j)) ''.png''"
      unfolding el by (intro conjI f b p jl)
  qed
  have c: "sanitize_filename s
       = take 100 (concat (map (\<lambda>c. if c = CHR '' '' then ''_''
                                     else if path_hostile c then [] else [c]) s))"
    by (simp add: sanitize_filename_def sanitize_charwise)
  have d: "length (sanitize_filename s) \<le> 100"
    by (simp add: sanitize_filename_def)
  from a c d show ?thesis by (intro conjI)
qed

theorem artifact_filename_witness:
  "(0::nat) < length (files (fst (generate_cards_from_df sample_env [john_doe] ''web_cards'')))
   \<and> filename (files (fst (generate_cards_from_df sample_env [john_doe] ''web_cards'')) ! 0)
       = ''web_cards/John_Doe_STE_12345_690_7890.png''
   \<and> basename (filename (files (fst (generate_cards_from_df sample_env [john_doe] ''web_cards'')) ! 0))
       = ''John_Doe_STE_12345_690_7890.png''
   \<and> sanitize_filename ''Doe, John: a/b?'' = ''Doe,_John_ab''"
proof -
  have h: "(0::nat) < length (files (fst (generate_cards_from_df sample_env [john_doe] ''web_cards'')))"
    by code_simp
  have n: "sanitize_filename (name_of ([john_doe] ! 0)) = ''John_Doe''"
    by code_simp
  have c: "sanitize_filename (card_of ([john_doe] ! 0)) = ''STE_12345_690_7890''"
    by code_simp
  have j: "os_path_join ''web_cards'' ''John_Doe_STE_12345_690_7890.png''
      = ''web_cards/John_Doe_STE_12345_690_7890.png''"
    by code_simp
  have k: "take 100 (concat (map (\<lambda>c. if c = CHR '' '' then ''_''
                                     else if path_hostile c then [] else [c]) ''Doe, John: a/b?''))
      = ''Doe,_John_ab''"
    by code_simp
  note t = artifact_filename [of sample_env "[john_doe]" "''web_cards''" "''Doe, John: a/b?''"]
  from t h have "filename (files (fst (generate_cards_from_df sample_env [john_doe] ''web_cards'')) ! 0)
       = os_path_join ''web_cards''
             (sanitize_filename (name_of ([john_doe] ! 0)) @ ''_'' @ sanitize_filename (card_of ([john_doe] ! 0)) @ ''.png'')"
    by blast
  then have a: "filename (files (fst (generate_cards_from_df sample_env [john_doe] ''web_cards'')) ! 0)
       = ''web_cards/John_Doe_STE_12345_690_7890.png''"
    unfolding n c using j by simp
  from t h have "basename (filename (files (fst (generate_cards_from_df sample_env [john_doe] ''web_cards'')) ! 0))
         = sanitize_filename (name_of ([john_doe] ! 0)) @ ''_'' @ sanitize_filename (card_of ([john_doe] ! 0)) @ ''.png''"
    by blast
  then have b: "basename (filename (files (fst (generate_cards_from_df sample_env [john_doe] ''web_cards'')) ! 0))
       = ''John_Doe_STE_12345_690_7890.png''"
    unfolding n c by simp
  from t have "sanitize_filename ''Doe, John: a/b?''
       = take 100 (concat (map (\<lambda>c. if c = CHR '' '' then ''_''
                                     else if path_hostile c then [] else [c]) ''Doe, John: a/b?''))"
    by blast
  then have d: "sanitize_filename ''Doe, John: a/b?'' = ''Doe,_John_ab''"
    unfolding k .
  from h a b d show ?thesis by (intro conjI)
qed

section \<open>The batch: a row that cannot be rendered\<close>




section \<open>The batch: a notification that cannot be sent\<close>



end
